theory Spec2Isabelle
  imports Complex_Main
begin

section \<open>The March Madness dashboard: the data-cleaning chain of \<open>mm_streamlit.py\<close>\<close>

text \<open>
  The script reads a CSV file into a pandas DataFrame \<open>mm\<close>, reassigns \<open>mm_sub\<close> six
  times (lines 25, 29, 32, 34, 41 and 62) and hands the tables to plotting calls. The
  embedding takes the loaded frame \<open>mm\<close> as its input and follows the script line by
  line. The pandas, numpy and plotly operations the script calls are modelled by their
  documented behaviour on the table, with every exception they raise as an \<open>Inl\<close> result;
  the script has no \<open>try\<close>, so an \<open>Inl\<close> is an exception that leaves the script
  uncaught and ends it: a later line is reached only when the earlier ones raised nothing.
\<close>

subsection \<open>Cells, frames, exceptions\<close>

text \<open>
  A cell of a frame read from CSV is missing (\<open>NaN\<close>), a number or a string. \<open>Num x\<close>
  stands for a finite entry of an int64, float64 or bool column by its exact value
  (\<open>True\<close> is 1 and \<open>False\<close> is 0, as Python compares them); every finite double
  is a rational, so the comparisons with the constants 0 and 2006 are exact.
\<close>

datatype cell = NaN | Num real | Str string

datatype error = KeyError "string list" | TypeError | ValueError | PlotlyError

text \<open>
  A frame has its column labels and its rows; a row carries its index label (the
  \<open>RangeIndex\<close> position given by \<open>read_csv\<close>, kept by every filter) and one cell per
  column. In a frame read from CSV the column labels are distinct, the index labels are
  distinct (\<open>distinct (map fst (rows f))\<close>, assumed where a claim speaks of the raw row
  of a label) and every row is as long as the list of columns.
\<close>

record frame =
  columns :: "string list"
  rows :: "(nat \<times> cell list) list"

subsection \<open>The pandas operations the script uses\<close>

fun col_pos :: "string list \<Rightarrow> string \<Rightarrow> nat option" where
  "col_pos [] c = None"
| "col_pos (x # xs) c = (if x = c then Some 0 else map_option Suc (col_pos xs c))"

text \<open>The cell of a row under a column label, for a row laid out along \<open>cols\<close>.\<close>

definition cell_at :: "string list \<Rightarrow> cell list \<Rightarrow> string \<Rightarrow> cell option" where
  "cell_at cols r c = (case col_pos cols c of None \<Rightarrow> None | Some k \<Rightarrow> Some (r ! k))"

text \<open>\<open>df[c]\<close>: the column as a series, \<open>KeyError\<close> when the label is absent.\<close>

definition getitem :: "frame \<Rightarrow> string \<Rightarrow> error + cell list" where
  "getitem f c =
     (case col_pos (columns f) c of
        None \<Rightarrow> Inl (KeyError [c])
      | Some k \<Rightarrow> Inr (map (\<lambda>r. snd r ! k) (rows f)))"

text \<open>Boolean indexing keeps the rows whose mask entry is \<open>True\<close>, labels included.\<close>

definition mask_rows :: "bool list \<Rightarrow> 'a list \<Rightarrow> 'a list" where
  "mask_rows msk xs = map snd (filter fst (zip msk xs))"

definition getitem_mask :: "frame \<Rightarrow> bool list \<Rightarrow> frame" where
  "getitem_mask f msk = f\<lparr>rows := mask_rows msk (rows f)\<rparr>"

fun pick :: "string list \<Rightarrow> cell list \<Rightarrow> string list \<Rightarrow> cell list" where
  "pick cols r [] = []"
| "pick cols r (c # cs) =
     (case col_pos cols c of
        None \<Rightarrow> pick cols r cs
      | Some k \<Rightarrow> (r ! k) # pick cols r cs)"

text \<open>
  \<open>df.loc[mask, cs]\<close>: the masked rows, projected to the listed columns in the listed
  order; \<open>KeyError\<close> with the absent labels when any is absent.
\<close>

definition loc :: "frame \<Rightarrow> bool list \<Rightarrow> string list \<Rightarrow> error + frame" where
  "loc f msk cs =
     (let missing = filter (\<lambda>c. c \<notin> set (columns f)) cs in
      if missing \<noteq> [] then Inl (KeyError missing)
      else Inr \<lparr>columns = cs,
                rows = map (\<lambda>r. (fst r, pick (columns f) (snd r) cs)) (mask_rows msk (rows f))\<rparr>)"

text \<open>\<open>df[cs]\<close> with a list of labels: every row, projected.\<close>

definition getitem_list :: "frame \<Rightarrow> string list \<Rightarrow> error + frame" where
  "getitem_list f cs = loc f (map (\<lambda>r. True) (rows f)) cs"

text \<open>\<open>df.rename(columns=m, inplace=True)\<close>: labels in \<open>m\<close> are replaced, others stay.\<close>

definition rename :: "frame \<Rightarrow> (string \<times> string) list \<Rightarrow> frame" where
  "rename f m =
     f\<lparr>columns := map (\<lambda>c. case map_of m c of None \<Rightarrow> c | Some c' \<Rightarrow> c') (columns f)\<rparr>"

text \<open>
  \<open>df[c] = series\<close>: an existing column is overwritten in place, a new label is
  appended as the last column.
\<close>

definition setitem :: "frame \<Rightarrow> string \<Rightarrow> cell list \<Rightarrow> frame" where
  "setitem f c vs =
     (case col_pos (columns f) c of
        None \<Rightarrow> \<lparr>columns = columns f @ [c],
                  rows = map (\<lambda>(r, v). (fst r, snd r @ [v])) (zip (rows f) vs)\<rparr>
      | Some k \<Rightarrow> f\<lparr>rows := map (\<lambda>(r, v). (fst r, (snd r)[k := v])) (zip (rows f) vs)\<rparr>)"

text \<open>
  The elementwise comparisons. \<open>==\<close> and \<open>!=\<close> never raise: a string never equals a
  number, and \<open>NaN\<close> equals nothing. \<open>>\<close> with a number is \<open>False\<close> on \<open>NaN\<close> and
  raises \<open>TypeError\<close> on a string.
\<close>

definition eq_str :: "cell \<Rightarrow> string \<Rightarrow> bool" where
  "eq_str c s \<longleftrightarrow> c = Str s"

definition ne_num :: "cell \<Rightarrow> real \<Rightarrow> bool" where
  "ne_num c x \<longleftrightarrow> c \<noteq> Num x"

fun gt_num :: "cell \<Rightarrow> real \<Rightarrow> error + bool" where
  "gt_num NaN x = Inr False"
| "gt_num (Num v) x = Inr (x < v)"
| "gt_num (Str s) x = Inl TypeError"

fun series_gt :: "cell list \<Rightarrow> real \<Rightarrow> error + bool list" where
  "series_gt [] x = Inr []"
| "series_gt (c # cs) x =
     (case gt_num c x of
        Inl e \<Rightarrow> Inl e
      | Inr b \<Rightarrow> (case series_gt cs x of Inl e \<Rightarrow> Inl e | Inr bs \<Rightarrow> Inr (b # bs)))"

definition astype_int :: "bool \<Rightarrow> cell" where
  "astype_int b = Num (if b then 1 else 0)"

definition isna :: "cell \<Rightarrow> bool" where
  "isna c \<longleftrightarrow> c = NaN"

subsection \<open>Data cleaning, lines 25 to 41\<close>

definition cols_l25 :: "string list" where
  "cols_l25 =
     [''Season'', ''Mapped ESPN Team Name'', ''Adjusted Offensive Efficiency'',
      ''Adjusted Defensive Efficiency'', ''eFGPct'', ''TOPct'', ''AdjTempo'', ''PGOR'', ''PGDR'',
      ''Tournament Winner?'', ''Post-Season Tournament'']"

definition cols_l29 :: "string list" where
  "cols_l29 =
     [''Season'', ''Mapped ESPN Team Name'', ''Adjusted Offensive Efficiency'',
      ''Adjusted Defensive Efficiency'', ''eFGPct'', ''TOPct'', ''AdjTempo'', ''PGOR'', ''PGDR'',
      ''Post-Season Tournament'']"

definition renames_l34 :: "(string \<times> string) list" where
  "renames_l34 =
     [(''Adjusted Offensive Efficiency'', ''AdjOE''),
      (''Adjusted Defensive Efficiency'', ''AdjDE''),
      (''Post-Season Tournament'', ''March Madness?''),
      (''Mapped ESPN Team Name'', ''School'')]"

text \<open>Line 25: \<open>mm.loc[mm['Tournament Winner?'] == 'No', [...]]\<close>.\<close>

definition mm_sub_l25 :: "frame \<Rightarrow> error + frame" where
  "mm_sub_l25 mm =
     (case getitem mm ''Tournament Winner?'' of
        Inl e \<Rightarrow> Inl e
      | Inr tw \<Rightarrow> loc mm (map (\<lambda>c. eq_str c ''No'') tw) cols_l25)"

text \<open>Line 29: \<open>mm_sub[[...]]\<close>, the ten columns kept.\<close>

definition mm_sub_l29 :: "frame \<Rightarrow> error + frame" where
  "mm_sub_l29 mm =
     (case mm_sub_l25 mm of Inl e \<Rightarrow> Inl e | Inr t \<Rightarrow> getitem_list t cols_l29)"

text \<open>
  Line 32: \<open>mm_sub[(mm_sub['eFGPct'] != 0) & (mm_sub['Adjusted Defensive Efficiency'] != 0)]\<close>.
\<close>

definition mm_sub_l32 :: "frame \<Rightarrow> error + frame" where
  "mm_sub_l32 mm =
     (case mm_sub_l29 mm of
        Inl e \<Rightarrow> Inl e
      | Inr t \<Rightarrow>
          (case getitem t ''eFGPct'' of
             Inl e \<Rightarrow> Inl e
           | Inr efg \<Rightarrow>
               (case getitem t ''Adjusted Defensive Efficiency'' of
                  Inl e \<Rightarrow> Inl e
                | Inr de \<Rightarrow>
                    Inr (getitem_mask t
                          (map (\<lambda>(a, b). ne_num a 0 \<and> ne_num b 0) (zip efg de))))))"

text \<open>Lines 34 to 39: the four columns renamed.\<close>

definition mm_sub_l34 :: "frame \<Rightarrow> error + frame" where
  "mm_sub_l34 mm =
     (case mm_sub_l32 mm of Inl e \<Rightarrow> Inl e | Inr t \<Rightarrow> Inr (rename t renames_l34))"

text \<open>
  Line 41:
  \<open>mm_sub['March Madness?'] = (mm_sub['March Madness?'] == 'March Madness').astype(int)\<close>.
\<close>

definition mm_sub_l41 :: "frame \<Rightarrow> error + frame" where
  "mm_sub_l41 mm =
     (case mm_sub_l34 mm of
        Inl e \<Rightarrow> Inl e
      | Inr t \<Rightarrow>
          (case getitem t ''March Madness?'' of
             Inl e \<Rightarrow> Inl e
           | Inr s \<Rightarrow>
               Inr (setitem t ''March Madness?''
                     (map (\<lambda>c. astype_int (eq_str c ''March Madness'')) s))))"

subsection \<open>The missing-value plot, lines 46 to 57\<close>

definition nan_mask :: "frame \<Rightarrow> bool list list" where
  "nan_mask t = map (\<lambda>r. map isna (snd r)) (rows t)"

text \<open>\<open>nan_mask.astype(int).to_numpy()\<close>: one row of the array per row of the frame.\<close>

definition nan_array :: "frame \<Rightarrow> int list list" where
  "nan_array t = map (map (\<lambda>b. if b then 1 else 0)) (nan_mask t)"

definition num_mm :: "frame \<Rightarrow> int" where
  "num_mm t = int (length (nan_array t))"

text \<open>
  \<open>np.linspace(start, stop, num)\<close>: \<open>num\<close> evenly spaced samples, none for
  \<open>num = 0\<close>, only \<open>start\<close> for \<open>num = 1\<close>, the last one \<open>stop\<close> itself. The sample
  values are given in exact arithmetic; numpy computes them in doubles.
\<close>

definition linspace :: "real \<Rightarrow> real \<Rightarrow> nat \<Rightarrow> real list" where
  "linspace start stop num =
     (if num = 0 then []
      else if num = 1 then [start]
      else map (\<lambda>i. if i = num - 1 then stop
                     else start + real i * ((stop - start) / real (num - 1))) [0..<num])"

text \<open>\<open>.astype(int)\<close> on a float array truncates towards zero.\<close>

definition trunc :: "real \<Rightarrow> int" where
  "trunc x = (if 0 \<le> x then \<lfloor>x\<rfloor> else \<lceil>x\<rceil>)"

text \<open>Line 57: \<open>np.linspace(0, num_mm-1, min(10, num_mm)).astype(int)\<close>.\<close>

definition xticks :: "frame \<Rightarrow> int list" where
  "xticks t =
     map trunc (linspace 0 (real_of_int (num_mm t - 1)) (nat (min 10 (num_mm t))))"

subsection \<open>The season filter of line 62 and the views after it\<close>

text \<open>Line 62: \<open>mm_sub[mm_sub['Season'] > 2006]\<close>.\<close>

definition season_filter :: "frame \<Rightarrow> error + frame" where
  "season_filter t =
     (case getitem t ''Season'' of
        Inl e \<Rightarrow> Inl e
      | Inr s \<Rightarrow>
          (case series_gt s 2006 of
             Inl e \<Rightarrow> Inl e
           | Inr msk \<Rightarrow> Inr (getitem_mask t msk)))"

text \<open>The table the heatmap, the histogram and the scatter plot read.\<close>

definition mm_sub :: "frame \<Rightarrow> error + frame" where
  "mm_sub mm = (case mm_sub_l41 mm of Inl e \<Rightarrow> Inl e | Inr t \<Rightarrow> season_filter t)"

subsection \<open>The correlation heatmap, lines 81 to 100\<close>

definition selected_features_l81 :: "string list" where
  "selected_features_l81 =
     [''eFGPct'', ''TOPct'', ''AdjTempo'', ''AdjOE'', ''AdjDE'', ''PGOR'', ''PGDR'',
      ''March Madness?'']"

text \<open>Line 82: \<open>[f for f in selected_features if f in mm_sub.columns]\<close>.\<close>

definition selected_features :: "frame \<Rightarrow> string list" where
  "selected_features t = filter (\<lambda>f. f \<in> set (columns t)) selected_features_l81"

text \<open>
  \<open>DataFrame.corr()\<close> with its defaults as pandas 2 documents them (Pearson,
  \<open>min_periods=1\<close>, \<open>numeric_only=False\<close>: every column is taken) first turns the
  frame into a float array, \<open>NaN\<close> for a missing cell. A text cell goes through Python's
  \<open>float\<close>, which raises \<open>ValueError\<close> on a text that is no number. What \<open>float\<close>
  makes of a text is a parameter \<open>conv\<close> of the model (\<open>None\<close>: it raises;
  \<open>Some None\<close>: NaN; \<open>Some (Some x)\<close>: the number \<open>x\<close>), but for this much of its
  grammar: a number, \<open>inf\<close> or \<open>nan\<close> has a decimal digit or the letter n in it, so a
  text of ASCII characters with neither is refused whatever \<open>conv\<close> says.
\<close>

type_synonym conv = "string \<Rightarrow> real option option"

definition float_char :: "char \<Rightarrow> bool" where
  "float_char c \<longleftrightarrow> c \<in> set ''0123456789nN'' \<or> 128 \<le> (of_char c :: nat)"

definition float_of_str :: "conv \<Rightarrow> string \<Rightarrow> real option option" where
  "float_of_str conv s = (if list_ex float_char s then conv s else None)"

fun to_float :: "conv \<Rightarrow> cell \<Rightarrow> error + real option" where
  "to_float conv NaN = Inr None"
| "to_float conv (Num x) = Inr (Some x)"
| "to_float conv (Str s) =
     (case float_of_str conv s of None \<Rightarrow> Inl ValueError | Some v \<Rightarrow> Inr v)"

fun floats :: "conv \<Rightarrow> cell list \<Rightarrow> error + real option list" where
  "floats conv [] = Inr []"
| "floats conv (c # cs) =
     (case to_float conv c of
        Inl e \<Rightarrow> Inl e
      | Inr v \<Rightarrow> (case floats conv cs of Inl e \<Rightarrow> Inl e | Inr vs \<Rightarrow> Inr (v # vs)))"

fun float_rows :: "conv \<Rightarrow> cell list list \<Rightarrow> error + real option list list" where
  "float_rows conv [] = Inr []"
| "float_rows conv (r # rs) =
     (case floats conv r of
        Inl e \<Rightarrow> Inl e
      | Inr v \<Rightarrow> (case float_rows conv rs of Inl e \<Rightarrow> Inl e | Inr vs \<Rightarrow> Inr (v # vs)))"

text \<open>
  Pearson's r of two columns, over the rows where neither is NaN: the sum of the products
  of the deviations from the two means, over the square root of the product of the two
  sums of squared deviations; NaN (\<open>None\<close>) when no row is left or that divisor is 0.
  The arithmetic is exact; pandas computes it in doubles.
\<close>

fun pairs :: "real option list \<Rightarrow> real option list \<Rightarrow> (real \<times> real) list" where
  "pairs (Some x # xs) (Some y # ys) = (x, y) # pairs xs ys"
| "pairs (a # xs) (b # ys) = pairs xs ys"
| "pairs xs ys = []"

definition mean :: "real list \<Rightarrow> real" where
  "mean xs = sum_list xs / real (length xs)"

definition ssqdm :: "real list \<Rightarrow> real" where
  "ssqdm xs = sum_list (map (\<lambda>x. (x - mean xs)\<^sup>2) xs)"

definition covxy :: "(real \<times> real) list \<Rightarrow> real" where
  "covxy ps =
     sum_list (map (\<lambda>p. (fst p - mean (map fst ps)) * (snd p - mean (map snd ps))) ps)"

definition pearson :: "real option list \<Rightarrow> real option list \<Rightarrow> real option" where
  "pearson xs ys =
     (let ps = pairs xs ys;
          divisor = sqrt (ssqdm (map fst ps) * ssqdm (map snd ps))
      in if ps = [] \<or> divisor = 0 then None else Some (covxy ps / divisor))"

definition corr :: "conv \<Rightarrow> frame \<Rightarrow> error + real option list list" where
  "corr conv f =
     (case float_rows conv (map snd (rows f)) of
        Inl e \<Rightarrow> Inl e
      | Inr m \<Rightarrow>
          Inr (map (\<lambda>i. map (\<lambda>j. pearson (map (\<lambda>r. r ! i) m) (map (\<lambda>r. r ! j) m))
                           [0..<length (columns f)])
                 [0..<length (columns f)]))"

text \<open>\<open>.round(3)\<close>: to three decimals, a tie to the even neighbour; NaN stays NaN.\<close>

definition rint :: "real \<Rightarrow> int" where
  "rint x =
     (if x - real_of_int \<lfloor>x\<rfloor> < 1 / 2 then \<lfloor>x\<rfloor>
      else if 1 / 2 < x - real_of_int \<lfloor>x\<rfloor> then \<lfloor>x\<rfloor> + 1
      else if even \<lfloor>x\<rfloor> then \<lfloor>x\<rfloor> else \<lfloor>x\<rfloor> + 1)"

definition round3 :: "real \<Rightarrow> real" where
  "round3 x = real_of_int (rint (x * 1000)) / 1000"

text \<open>Line 84: \<open>mm_sub[selected_features].corr().round(3).values\<close>.\<close>

definition correlation_matrix :: "conv \<Rightarrow> frame \<Rightarrow> error + real option list list" where
  "correlation_matrix conv t =
     (case getitem_list t (selected_features t) of
        Inl e \<Rightarrow> Inl e
      | Inr s \<Rightarrow>
          (case corr conv s of
             Inl e \<Rightarrow> Inl e
           | Inr m \<Rightarrow> Inr (map (map (map_option round3)) m)))"

text \<open>
  Lines 86 to 92: \<open>ff.create_annotated_heatmap(z, x, y, ...)\<close> refuses labels that do not
  fit the matrix: \<open>x\<close> against the width of \<open>z\<close>, \<open>y\<close> against its height.
\<close>

record heatmap =
  hm_z :: "real option list list"
  hm_x :: "string list"
  hm_y :: "string list"

definition create_annotated_heatmap ::
  "real option list list \<Rightarrow> string list \<Rightarrow> string list \<Rightarrow> error + heatmap" where
  "create_annotated_heatmap z x y =
     (if x \<noteq> [] \<and> (case z of [] \<Rightarrow> True | r # rs \<Rightarrow> length x \<noteq> length r) then Inl PlotlyError
      else if y \<noteq> [] \<and> length y \<noteq> length z then Inl PlotlyError
      else Inr \<lparr>hm_z = z, hm_x = x, hm_y = y\<rparr>)"

definition fig_heatmap :: "conv \<Rightarrow> frame \<Rightarrow> error + heatmap" where
  "fig_heatmap conv t =
     (case correlation_matrix conv t of
        Inl e \<Rightarrow> Inl e
      | Inr z \<Rightarrow> create_annotated_heatmap z (selected_features t) (selected_features t))"

subsection \<open>The histogram, lines 105 to 113\<close>


text \<open>
  Line 113: \<open>px.histogram(mm_sub, x=plot_col, nbins=30, title=...)\<close>. The figure is
  the request handed to the plotting library: the values of the one column named by
  \<open>x\<close>, the \<open>nbins\<close> argument and the title. A label that is no column of the frame
  is a \<open>ValueError\<close> of the library.
\<close>

record histogram =
  hist_x :: "cell list"
  nbins :: nat
  title :: string

definition px_histogram :: "frame \<Rightarrow> string \<Rightarrow> nat \<Rightarrow> string \<Rightarrow> error + histogram" where
  "px_histogram t x n ttl =
     (case col_pos (columns t) x of
        None \<Rightarrow> Inl ValueError
      | Some k \<Rightarrow> Inr \<lparr>hist_x = map (\<lambda>r. snd r ! k) (rows t), nbins = n, title = ttl\<rparr>)"

text \<open>
  The script runs top to bottom: line 113 is reached when the cleaning chain and the
  heatmap of lines 84 to 100 have raised nothing.
\<close>

definition fig_hist :: "conv \<Rightarrow> frame \<Rightarrow> string \<Rightarrow> error + histogram" where
  "fig_hist conv mm plot_col =
     (case mm_sub mm of
        Inl e \<Rightarrow> Inl e
      | Inr t \<Rightarrow>
          (case fig_heatmap conv t of
             Inl e \<Rightarrow> Inl e
           | Inr g \<Rightarrow> px_histogram t plot_col 30 (''Histogram of '' @ plot_col)))"

subsection \<open>What the chain does to one row\<close>

text \<open>
  The composition of the projections of lines 25 and 29 on the cells of one raw row, the
  label written by line 41 into position 9, the column labels after the renaming, and the
  tests of the three filters read on the raw row. They are the vocabulary of the lemmas
  below, which derive them from the definitions above.
\<close>

definition row_l29 :: "string list \<Rightarrow> cell list \<Rightarrow> cell list" where
  "row_l29 cols r = pick cols_l25 (pick cols r cols_l25) cols_l29"

definition row_l41 :: "string list \<Rightarrow> cell list \<Rightarrow> cell list" where
  "row_l41 cols r =
     (row_l29 cols r)[9 := astype_int (eq_str (row_l29 cols r ! 9) ''March Madness'')]"

definition kept :: "string list \<Rightarrow> cell list \<Rightarrow> bool" where
  "kept cols r \<longleftrightarrow>
     cell_at cols r ''Tournament Winner?'' = Some (Str ''No'') \<and>
     cell_at cols r ''eFGPct'' \<noteq> Some (Num 0) \<and>
     cell_at cols r ''Adjusted Defensive Efficiency'' \<noteq> Some (Num 0)"

definition cols_l41 :: "string list" where
  "cols_l41 = [''Season'', ''School'', ''AdjOE'', ''AdjDE'', ''eFGPct'', ''TOPct'', ''AdjTempo'',
               ''PGOR'', ''PGDR'', ''March Madness?'']"

definition is_gt :: "cell \<Rightarrow> real \<Rightarrow> bool" where
  "is_gt c x = (case c of Num v \<Rightarrow> x < v | _ \<Rightarrow> False)"

definition in_season :: "string list \<Rightarrow> cell list \<Rightarrow> bool" where
  "in_season cols r =
     (case cell_at cols r ''Season'' of None \<Rightarrow> False | Some c \<Rightarrow> is_gt c 2006)"

text \<open>
  Lines 46 and 47 as a function of the loaded frame: \<open>nan_array\<close> is computed from the
  \<open>mm_sub\<close> of line 41; the assignment of line 62 comes after the plot.
\<close>

definition nan_array_l47 :: "frame \<Rightarrow> error + int list list" where
  "nan_array_l47 mm = (case mm_sub_l41 mm of Inl e \<Rightarrow> Inl e | Inr t \<Rightarrow> Inr (nan_array t))"


subsection \<open>Sample frames\<close>

text \<open>
  A loaded frame with the eleven columns in another order and one more column, and rows
  that each filter drops: season 2005 (label 0), zero statistics in 2021 (label 1), a
  conference winner (label 2), a missing winner flag (label 5).
\<close>

definition mm_ex :: frame where
  "mm_ex = \<lparr>columns =
     [''Mapped ESPN Team Name'', ''Season'', ''Tournament Winner?'', ''Post-Season Tournament'',
      ''Adjusted Offensive Efficiency'', ''Adjusted Defensive Efficiency'', ''eFGPct'', ''TOPct'',
      ''AdjTempo'', ''PGOR'', ''PGDR'', ''Seed''],
    rows =
     [(0, [Str ''Duke'', Num 2005, Str ''No'', Str ''March Madness'',
           Num 118, Num 92, Num 55, Num 18, Num 68, NaN, NaN, Num 1]),
      (1, [Str ''Yale'', Num 2021, Str ''No'', NaN,
           Num 0, Num 0, Num 0, Num 0, Num 0, Num 0, Num 0, NaN]),
      (2, [Str ''Iona'', Num 2019, Str ''Yes'', Str ''March Madness'',
           Num 101, Num 104, Num 51, Num 19, Num 70, Num 3, Num 2, Num 16]),
      (3, [Str ''Ohio State'', Num 2019, Str ''No'', Str ''March Madness'',
           Num 110, Num 95, Num 52, Num 17, Num 66, Num 4, Num 5, Num 11]),
      (4, [Str ''Dayton'', Num 2010, Str ''No'', Str ''NIT'',
           Num 107, Num 93, Num 49, Num 20, Num 67, Num 2, Num 3, NaN]),
      (5, [Str ''Drake'', Num 2012, NaN, NaN,
           Num 103, Num 101, Num 50, Num 19, Num 65, Num 1, Num 1, NaN]),
      (6, [Str ''Utah'', Num 2015, Str ''No'', NaN,
           Num 112, Num 90, Num 53, Num 18, Num 63, NaN, Num 4, NaN])]\<rparr>"

definition mm_ex_l25 :: frame where
  "mm_ex_l25 = \<lparr>columns = cols_l25,
    rows =
     [(0, [Num 2005, Str ''Duke'', Num 118, Num 92, Num 55, Num 18, Num 68, NaN, NaN,
           Str ''No'', Str ''March Madness'']),
      (1, [Num 2021, Str ''Yale'', Num 0, Num 0, Num 0, Num 0, Num 0, Num 0, Num 0,
           Str ''No'', NaN]),
      (3, [Num 2019, Str ''Ohio State'', Num 110, Num 95, Num 52, Num 17, Num 66, Num 4, Num 5,
           Str ''No'', Str ''March Madness'']),
      (4, [Num 2010, Str ''Dayton'', Num 107, Num 93, Num 49, Num 20, Num 67, Num 2, Num 3,
           Str ''No'', Str ''NIT'']),
      (6, [Num 2015, Str ''Utah'', Num 112, Num 90, Num 53, Num 18, Num 63, NaN, Num 4,
           Str ''No'', NaN])]\<rparr>"

definition mm_ex_l41 :: frame where
  "mm_ex_l41 = \<lparr>columns = cols_l41,
    rows =
     [(0, [Num 2005, Str ''Duke'', Num 118, Num 92, Num 55, Num 18, Num 68, NaN, NaN, Num 1]),
      (3, [Num 2019, Str ''Ohio State'', Num 110, Num 95, Num 52, Num 17, Num 66, Num 4, Num 5,
           Num 1]),
      (4, [Num 2010, Str ''Dayton'', Num 107, Num 93, Num 49, Num 20, Num 67, Num 2, Num 3,
           Num 0]),
      (6, [Num 2015, Str ''Utah'', Num 112, Num 90, Num 53, Num 18, Num 63, NaN, Num 4,
           Num 0])]\<rparr>"

definition mm_ex_l62 :: frame where
  "mm_ex_l62 = mm_ex_l41\<lparr>rows := tl (rows mm_ex_l41)\<rparr>"

text \<open>A loaded frame without the winner flag, and one without the two point-guard ratings.\<close>

definition mm_no_winner :: frame where
  "mm_no_winner = \<lparr>columns =
     [''Season'', ''Mapped ESPN Team Name'', ''Adjusted Offensive Efficiency'',
      ''Adjusted Defensive Efficiency'', ''eFGPct'', ''TOPct'', ''AdjTempo'', ''PGOR'', ''PGDR'',
      ''Post-Season Tournament''],
    rows =
     [(0, [Num 2019, Str ''Ohio State'', Num 110, Num 95, Num 52, Num 17, Num 66, Num 4, Num 5,
           Str ''March Madness''])]\<rparr>"

definition mm_no_pg :: frame where
  "mm_no_pg = \<lparr>columns =
     [''Season'', ''Mapped ESPN Team Name'', ''Adjusted Offensive Efficiency'',
      ''Adjusted Defensive Efficiency'', ''eFGPct'', ''TOPct'', ''AdjTempo'',
      ''Tournament Winner?'', ''Post-Season Tournament''],
    rows =
     [(0, [Num 2019, Str ''Ohio State'', Num 110, Num 95, Num 52, Num 17, Num 66, Str ''No'',
           Str ''March Madness''])]\<rparr>"

text \<open>A loaded frame whose only row is of season 2005.\<close>

definition mm_2005 :: frame where
  "mm_2005 = \<lparr>columns = cols_l25,
    rows =
     [(0, [Num 2005, Str ''Duke'', Num 118, Num 92, Num 55, Num 18, Num 68, NaN, NaN,
           Str ''No'', Str ''March Madness''])]\<rparr>"



definition no_conv :: conv where
  "no_conv s = None"

section \<open>Lemmas about the pandas operations\<close>

lemma col_pos_Some: "col_pos cs c = Some k \<Longrightarrow> k < length cs \<and> cs ! k = c"
  by (induction cs arbitrary: k) (auto split: if_splits)

lemma col_pos_None: "col_pos cs c = None \<longleftrightarrow> c \<notin> set cs"
  by (induction cs) auto

lemma col_pos_in: "c \<in> set cs \<Longrightarrow> \<exists>k. col_pos cs c = Some k"
  using col_pos_None [of cs c] by (cases "col_pos cs c") auto

lemma mask_rows_map: "mask_rows (map p xs) xs = filter p xs"
  by (induction xs) (auto simp: mask_rows_def)

lemma map_zip_right: "map (\<lambda>(r, v). h r v) (zip xs (map g xs)) = map (\<lambda>r. h r (g r)) xs"
  by (induction xs) auto

lemma map_zip_both: "map (\<lambda>(a, b). h a b) (zip (map f xs) (map g xs)) = map (\<lambda>x. h (f x) (g x)) xs"
  by (induction xs) auto

lemma series_gt_Inr: "series_gt s x = Inr m \<Longrightarrow> m = map (\<lambda>c. is_gt c x) s"
proof (induction s arbitrary: m)
  case Nil
  then show ?case by simp
next
  case (Cons c s)
  then show ?case by (cases c) (auto simp: is_gt_def split: sum.splits)
qed

lemma length_pick: "set cs \<subseteq> set cols \<Longrightarrow> length (pick cols r cs) = length cs"
  by (induction cs) (auto simp: col_pos_None split: option.splits)

lemma pick_nth:
  "set cs \<subseteq> set cols \<Longrightarrow> k < length cs \<Longrightarrow> Some (pick cols r cs ! k) = cell_at cols r (cs ! k)"
proof (induction cs arbitrary: k)
  case Nil
  then show ?case by simp
next
  case (Cons c cs)
  then obtain j where j: "col_pos cols c = Some j" using col_pos_in [of c cols] by auto
  show ?case
  proof (cases k)
    case 0
    then show ?thesis using j by (simp add: cell_at_def)
  next
    case (Suc n)
    then show ?thesis using Cons j by simp
  qed
qed

lemma cell_at_pick:
  assumes "set cs \<subseteq> set cols" and "c \<in> set cs"
  shows "cell_at cs (pick cols r cs) c = cell_at cols r c"
proof -
  obtain k where k: "col_pos cs c = Some k" using col_pos_in assms(2) by blast
  then have "k < length cs" and "cs ! k = c" using col_pos_Some by blast+
  then show ?thesis using pick_nth [OF assms(1), of k r] k by (simp add: cell_at_def)
qed

lemma subset_l29_l25: "set cols_l29 \<subseteq> set cols_l25"
  by (simp add: cols_l29_def cols_l25_def)

lemma length_row_l29: "set cols_l25 \<subseteq> set cols \<Longrightarrow> length (row_l29 cols r) = 10"
  using length_pick [OF subset_l29_l25] by (simp add: row_l29_def cols_l29_def)

lemma cell_at_row_l29:
  assumes "set cols_l25 \<subseteq> set cols" and "c \<in> set cols_l29"
  shows "cell_at cols_l29 (row_l29 cols r) c = cell_at cols r c"
proof -
  have "c \<in> set cols_l25" using assms(2) subset_l29_l25 by blast
  then show ?thesis
    using cell_at_pick [OF subset_l29_l25 assms(2)] cell_at_pick [OF assms(1)]
    by (simp add: row_l29_def)
qed

lemma mm_sub_l25_Inr:
  assumes "mm_sub_l25 mm = Inr t"
  shows "set cols_l25 \<subseteq> set (columns mm) \<and> columns t = cols_l25 \<and>
         rows t = map (\<lambda>r. (fst r, pick (columns mm) (snd r) cols_l25))
                    (filter (\<lambda>r. cell_at (columns mm) (snd r) ''Tournament Winner?'' = Some (Str ''No''))
                       (rows mm))"
proof -
  from assms obtain k where k: "col_pos (columns mm) ''Tournament Winner?'' = Some k"
    by (auto simp: mm_sub_l25_def getitem_def split: option.splits)
  have m: "map (\<lambda>r. eq_str (snd r ! k) ''No'') (rows mm)
           = map (\<lambda>r. cell_at (columns mm) (snd r) ''Tournament Winner?'' = Some (Str ''No'')) (rows mm)"
    using k by (simp add: cell_at_def eq_str_def)
  from assms k have l: "loc mm (map (\<lambda>r. cell_at (columns mm) (snd r) ''Tournament Winner?'' = Some (Str ''No'')) (rows mm)) cols_l25 = Inr t"
    by (simp add: mm_sub_l25_def getitem_def comp_def m)
  then have "filter (\<lambda>c. c \<notin> set (columns mm)) cols_l25 = []"
    by (auto simp: loc_def Let_def split: if_splits)
  then have sub: "set cols_l25 \<subseteq> set (columns mm)"
    by (auto simp: filter_empty_conv)
  from l show ?thesis using sub
    by (auto simp: loc_def Let_def mask_rows_map split: if_splits)
qed

lemma mm_sub_l29_Inr:
  assumes "mm_sub_l29 mm = Inr t"
  shows "set cols_l25 \<subseteq> set (columns mm) \<and> columns t = cols_l29 \<and>
         rows t = map (\<lambda>r. (fst r, row_l29 (columns mm) (snd r)))
                    (filter (\<lambda>r. cell_at (columns mm) (snd r) ''Tournament Winner?'' = Some (Str ''No''))
                       (rows mm))"
proof -
  from assms obtain t1 where t1: "mm_sub_l25 mm = Inr t1" and g: "getitem_list t1 cols_l29 = Inr t"
    by (auto simp: mm_sub_l29_def split: sum.splits)
  note a = mm_sub_l25_Inr [OF t1]
  have "filter (\<lambda>c. c \<notin> set (columns t1)) cols_l29 = []"
    using a subset_l29_l25 by (auto simp: filter_empty_conv)
  with g have "t = \<lparr>columns = cols_l29,
                    rows = map (\<lambda>r. (fst r, pick (columns t1) (snd r) cols_l29)) (rows t1)\<rparr>"
    using mask_rows_map [of "\<lambda>r. True" "rows t1"]
    by (simp add: getitem_list_def loc_def)
  then show ?thesis using a by (simp add: row_l29_def comp_def)
qed

lemma row_l29_nth:
  assumes "set cols_l25 \<subseteq> set cols" and "k < 10"
  shows "Some (row_l29 cols r ! k) = cell_at cols r (cols_l29 ! k)"
proof -
  have k: "k < length cols_l29" using assms(2) by (simp add: cols_l29_def)
  have "Some (row_l29 cols r ! k) = cell_at cols_l25 (pick cols r cols_l25) (cols_l29 ! k)"
    using pick_nth [OF subset_l29_l25 k] by (simp add: row_l29_def)
  also have "\<dots> = cell_at cols r (cols_l29 ! k)"
    using cell_at_pick [OF assms(1)] subset_l29_l25 k by (meson nth_mem subsetD)
  finally show ?thesis .
qed

lemma row_l29_cells:
  assumes "set cols_l25 \<subseteq> set cols"
  shows "Some (row_l29 cols r ! 0) = cell_at cols r ''Season''"
    and "Some (row_l29 cols r ! 3) = cell_at cols r ''Adjusted Defensive Efficiency''"
    and "Some (row_l29 cols r ! 4) = cell_at cols r ''eFGPct''"
    and "Some (row_l29 cols r ! 9) = cell_at cols r ''Post-Season Tournament''"
  using row_l29_nth [OF assms, of 0 r] row_l29_nth [OF assms, of 3 r]
    row_l29_nth [OF assms, of 4 r] row_l29_nth [OF assms, of 9 r]
  by (simp_all add: cols_l29_def)

lemma kept_row_l29:
  assumes "set cols_l25 \<subseteq> set cols"
  shows "kept cols r \<longleftrightarrow>
           cell_at cols r ''Tournament Winner?'' = Some (Str ''No'') \<and>
           ne_num (row_l29 cols r ! 4) 0 \<and> ne_num (row_l29 cols r ! 3) 0"
  using row_l29_cells(2,3) [OF assms, of r, symmetric] by (auto simp: kept_def ne_num_def)

lemma mm_sub_l32_Inr:
  assumes "mm_sub_l32 mm = Inr t"
  shows "set cols_l25 \<subseteq> set (columns mm) \<and> columns t = cols_l29 \<and>
         rows t = map (\<lambda>r. (fst r, row_l29 (columns mm) (snd r)))
                    (filter (\<lambda>r. kept (columns mm) (snd r)) (rows mm))"
proof -
  from assms obtain t2 where t2: "mm_sub_l29 mm = Inr t2" 
    by (auto simp: mm_sub_l32_def split: sum.splits)
  note a = mm_sub_l29_Inr [OF t2]
  have p4: "col_pos (columns t2) ''eFGPct'' = Some 4"
    and p3: "col_pos (columns t2) ''Adjusted Defensive Efficiency'' = Some 3"
    using a by (simp_all add: cols_l29_def)
  have "t = getitem_mask t2
              (map (\<lambda>r. ne_num (snd r ! 4) 0 \<and> ne_num (snd r ! 3) 0) (rows t2))"
    using assms t2 p4 p3 map_zip_both [of "\<lambda>a b. ne_num a 0 \<and> ne_num b 0" "\<lambda>r. snd r ! 4" "rows t2" "\<lambda>r. snd r ! 3"]
    by (simp add: mm_sub_l32_def getitem_def)
  then have "columns t = columns t2"
    and "rows t = filter (\<lambda>r. ne_num (snd r ! 4) 0 \<and> ne_num (snd r ! 3) 0) (rows t2)"
    by (simp_all add: getitem_mask_def mask_rows_map)
  then show ?thesis using a kept_row_l29 [of "columns mm"]
    by (simp add: filter_map comp_def cong: conj_cong)
qed

lemma mm_sub_l34_Inr:
  assumes "mm_sub_l34 mm = Inr t"
  shows "set cols_l25 \<subseteq> set (columns mm) \<and> columns t = cols_l41 \<and>
         rows t = map (\<lambda>r. (fst r, row_l29 (columns mm) (snd r)))
                    (filter (\<lambda>r. kept (columns mm) (snd r)) (rows mm))"
proof -
  from assms obtain t3 where t3: "mm_sub_l32 mm = Inr t3" and t: "t = rename t3 renames_l34"
    by (auto simp: mm_sub_l34_def split: sum.splits)
  note a = mm_sub_l32_Inr [OF t3]
  have "columns t = cols_l41"
    using a t by (simp add: rename_def cols_l29_def renames_l34_def cols_l41_def)
  moreover have "rows t = rows t3" using t by (simp add: rename_def)
  ultimately show ?thesis using a by simp
qed

lemma mm_sub_l41_Inr:
  assumes "mm_sub_l41 mm = Inr t"
  shows "set cols_l25 \<subseteq> set (columns mm) \<and> columns t = cols_l41 \<and>
         rows t = map (\<lambda>r. (fst r, row_l41 (columns mm) (snd r)))
                    (filter (\<lambda>r. kept (columns mm) (snd r)) (rows mm))"
proof -
  from assms obtain t4 where t4: "mm_sub_l34 mm = Inr t4"
    by (auto simp: mm_sub_l41_def split: sum.splits)
  note a = mm_sub_l34_Inr [OF t4]
  have p9: "col_pos (columns t4) ''March Madness?'' = Some 9"
    using a by (simp add: cols_l41_def)
  have "t = setitem t4 ''March Madness?''
              (map (\<lambda>r. astype_int (eq_str (snd r ! 9) ''March Madness'')) (rows t4))"
    using assms t4 p9 by (simp add: mm_sub_l41_def getitem_def comp_def)
  then have "columns t = columns t4"
    and "rows t = map (\<lambda>r. (fst r, (snd r)[9 := astype_int (eq_str (snd r ! 9) ''March Madness'')]))
                    (rows t4)"
    using p9 map_zip_right [of "\<lambda>r v. (fst r, (snd r)[9 := v])" "rows t4"
        "\<lambda>r. astype_int (eq_str (snd r ! 9) ''March Madness'')"]
    by (simp_all add: setitem_def)
  then show ?thesis using a by (simp add: row_l41_def comp_def)
qed

lemma season_filter_Inr:
  assumes "season_filter t = Inr t'" and "columns t = cols_l41"
  shows "columns t' = cols_l41 \<and> rows t' = filter (\<lambda>r. is_gt (snd r ! 0) 2006) (rows t)"
proof -
  have p0: "col_pos (columns t) ''Season'' = Some 0"
    using assms(2) by (simp add: cols_l41_def)
  from assms(1) p0 obtain m where m: "series_gt (map (\<lambda>r. snd r ! 0) (rows t)) 2006 = Inr m"
    and t': "t' = getitem_mask t m"
    by (auto simp: season_filter_def getitem_def split: sum.splits)
  have "m = map (\<lambda>r. is_gt (snd r ! 0) 2006) (rows t)"
    using series_gt_Inr [OF m] by (simp add: comp_def)
  then show ?thesis using t' assms(2) by (simp add: getitem_mask_def mask_rows_map)
qed

lemma in_season_row_l41:
  assumes "set cols_l25 \<subseteq> set cols"
  shows "in_season cols r \<longleftrightarrow> is_gt (row_l41 cols r ! 0) 2006"
  using row_l29_cells(1) [OF assms, of r, symmetric] by (simp add: in_season_def row_l41_def)

lemma mm_sub_Inr:
  assumes "mm_sub mm = Inr t"
  shows "set cols_l25 \<subseteq> set (columns mm) \<and> columns t = cols_l41 \<and>
         rows t = map (\<lambda>r. (fst r, row_l41 (columns mm) (snd r)))
                    (filter (\<lambda>r. kept (columns mm) (snd r) \<and> in_season (columns mm) (snd r))
                       (rows mm))"
proof -
  from assms obtain t5 where t5: "mm_sub_l41 mm = Inr t5" and s: "season_filter t5 = Inr t"
    by (auto simp: mm_sub_def split: sum.splits)
  note a = mm_sub_l41_Inr [OF t5]
  from a have c: "columns t5 = cols_l41" by simp
  note b = season_filter_Inr [OF s c]
  show ?thesis using a b in_season_row_l41 [of "columns mm"]
    by (simp add: filter_map comp_def cong: conj_cong)
qed

lemma row_l41_label:
  assumes "set cols_l25 \<subseteq> set cols"
  shows "cell_at cols_l41 (row_l41 cols r) ''March Madness?'' =
           Some (Num (if cell_at cols r ''Post-Season Tournament'' = Some (Str ''March Madness'')
                      then 1 else 0))"
proof -
  have p: "col_pos cols_l41 ''March Madness?'' = Some 9"
    by (simp add: cols_l41_def)
  have "row_l41 cols r ! 9 = astype_int (eq_str (row_l29 cols r ! 9) ''March Madness'')"
    using length_row_l29 [OF assms, of r] by (simp add: row_l41_def)
  moreover have "eq_str (row_l29 cols r ! 9) ''March Madness'' \<longleftrightarrow>
      cell_at cols r ''Post-Season Tournament'' = Some (Str ''March Madness'')"
    using row_l29_cells(4) [OF assms, of r, symmetric] by (auto simp: eq_str_def)
  ultimately show ?thesis using p by (simp add: cell_at_def astype_int_def)
qed

section \<open>The sample frames, evaluated\<close>

lemmas chain_defs = mm_sub_def mm_sub_l41_def mm_sub_l34_def mm_sub_l32_def mm_sub_l29_def
  mm_sub_l25_def getitem_def loc_def getitem_list_def getitem_mask_def mask_rows_def rename_def
  setitem_def cols_l25_def cols_l29_def cols_l41_def renames_l34_def eq_str_def ne_num_def
  astype_int_def season_filter_def

lemma mm_sub_l41_mm_ex: "mm_sub_l41 mm_ex = Inr mm_ex_l41"
  by (simp add: chain_defs mm_ex_def mm_ex_l41_def)

lemma mm_sub_mm_ex: "mm_sub mm_ex = Inr mm_ex_l62"
  by (simp add: mm_sub_def mm_sub_l41_mm_ex) (simp add: chain_defs mm_ex_l41_def mm_ex_l62_def)

lemma distinct_mm_ex: "distinct (map fst (rows mm_ex))"
  by (simp add: mm_ex_def)

section \<open>Rows of the cleaned table and the raw rows they come from\<close>

lemma mm_sub_row:
  assumes "mm_sub mm = Inr t" and "(i, r) \<in> set (rows t)"
  shows "\<exists>raw. (i, raw) \<in> set (rows mm) \<and> kept (columns mm) raw \<and>
           in_season (columns mm) raw \<and> r = row_l41 (columns mm) raw"
  using mm_sub_Inr [OF assms(1)] assms(2) by auto

lemma mm_sub_labels:
  assumes "mm_sub mm = Inr t" and "distinct (map fst (rows mm))" and "(i, raw) \<in> set (rows mm)"
    and "i \<in> fst ` set (rows t)"
  shows "kept (columns mm) raw \<and> in_season (columns mm) raw \<and>
         (i, row_l41 (columns mm) raw) \<in> set (rows t)"
proof -
  from assms(4) obtain r where r: "(i, r) \<in> set (rows t)" by auto
  from mm_sub_row [OF assms(1) r] obtain raw' where raw': "(i, raw') \<in> set (rows mm)"
    "kept (columns mm) raw'" "in_season (columns mm) raw'" "r = row_l41 (columns mm) raw'"
    by blast
  have "raw' = raw" using assms(2,3) raw'(1) by (rule_tac eq_key_imp_eq_value)
  then show ?thesis using raw' r by simp
qed

lemma row_l41_nth: "k \<noteq> 9 \<Longrightarrow> row_l41 cols r ! k = row_l29 cols r ! k"
  by (simp add: row_l41_def)

lemma row_l41_cells:
  assumes "set cols_l25 \<subseteq> set cols"
  shows "cell_at cols_l41 (row_l41 cols r) ''Season'' = cell_at cols r ''Season''"
    and "cell_at cols_l41 (row_l41 cols r) ''AdjDE'' = cell_at cols r ''Adjusted Defensive Efficiency''"
    and "cell_at cols_l41 (row_l41 cols r) ''eFGPct'' = cell_at cols r ''eFGPct''"
proof -
  have p: "col_pos cols_l41 ''Season'' = Some 0" "col_pos cols_l41 ''AdjDE'' = Some 3"
    "col_pos cols_l41 ''eFGPct'' = Some 4"
    by (simp_all add: cols_l41_def)
  show "cell_at cols_l41 (row_l41 cols r) ''Season'' = cell_at cols r ''Season''"
    using row_l29_cells(1) [OF assms, of r] p(1) by (simp add: cell_at_def [of cols_l41] row_l41_nth)
  show "cell_at cols_l41 (row_l41 cols r) ''AdjDE'' = cell_at cols r ''Adjusted Defensive Efficiency''"
    using row_l29_cells(2) [OF assms, of r] p(2) by (simp add: cell_at_def [of cols_l41] row_l41_nth)
  show "cell_at cols_l41 (row_l41 cols r) ''eFGPct'' = cell_at cols r ''eFGPct''"
    using row_l29_cells(3) [OF assms, of r] p(3) by (simp add: cell_at_def [of cols_l41] row_l41_nth)
qed

section \<open>The claims\<close>

text \<open>
  C1. Every row of the cleaned table comes from a raw row with the same index label, and
  its \<open>March Madness?\<close> cell is the integer 1 when that raw row's
  \<open>Post-Season Tournament\<close> cell is exactly the string \<open>March Madness\<close> and the
  integer 0 for any other cell (another string, a number, a missing value); it is never
  anything but 0 or 1. The index labels of a frame read from CSV are distinct, so a label
  names one raw row.
\<close>

theorem march_madness_label:
  assumes "mm_sub mm = Inr t" and "distinct (map fst (rows mm))" and "(i, r) \<in> set (rows t)"
  shows "(\<exists>raw. (i, raw) \<in> set (rows mm)) \<and>
         (\<forall>raw. (i, raw) \<in> set (rows mm) \<longrightarrow>
            cell_at (columns t) r ''March Madness?'' =
              Some (Num (if cell_at (columns mm) raw ''Post-Season Tournament'' =
                            Some (Str ''March Madness'') then 1 else 0))) \<and>
         cell_at (columns t) r ''March Madness?'' \<in> {Some (Num 0), Some (Num 1)}"
proof -
  note a = mm_sub_Inr [OF assms(1)]
  from mm_sub_row [OF assms(1,3)] obtain raw0 where raw0: "(i, raw0) \<in> set (rows mm)"
    "r = row_l41 (columns mm) raw0"
    by blast
  have lab: "cell_at (columns t) r ''March Madness?'' =
      Some (Num (if cell_at (columns mm) raw0 ''Post-Season Tournament'' =
                    Some (Str ''March Madness'') then 1 else 0))"
    using a raw0(2) row_l41_label [of "columns mm" raw0] by simp
  have u: "raw = raw0" if "(i, raw) \<in> set (rows mm)" for raw
    using assms(2) that raw0(1) by (rule eq_key_imp_eq_value)
  have 1: "\<exists>raw. (i, raw) \<in> set (rows mm)" using raw0(1) by (rule exI)
  have 2: "\<forall>raw. (i, raw) \<in> set (rows mm) \<longrightarrow>
            cell_at (columns t) r ''March Madness?'' =
              Some (Num (if cell_at (columns mm) raw ''Post-Season Tournament'' =
                            Some (Str ''March Madness'') then 1 else 0))"
  proof (intro allI impI)
    fix raw assume "(i, raw) \<in> set (rows mm)"
    then have "raw = raw0" by (rule u)
    then show "cell_at (columns t) r ''March Madness?'' =
              Some (Num (if cell_at (columns mm) raw ''Post-Season Tournament'' =
                            Some (Str ''March Madness'') then 1 else 0))"
      using lab by (simp only:)
  qed
  have 3: "cell_at (columns t) r ''March Madness?'' \<in> {Some (Num 0), Some (Num 1)}"
    unfolding lab by simp
  from 1 2 3 show ?thesis by (intro conjI)
qed

theorem march_madness_label_witness:
  "mm_sub mm_ex = Inr mm_ex_l62 \<and> distinct (map fst (rows mm_ex)) \<and>
   (3, [Num 2019, Str ''Ohio State'', Num 110, Num 95, Num 52, Num 17, Num 66, Num 4, Num 5,
        Num 1]) \<in> set (rows mm_ex_l62) \<and>
   (3, [Str ''Ohio State'', Num 2019, Str ''No'', Str ''March Madness'',
        Num 110, Num 95, Num 52, Num 17, Num 66, Num 4, Num 5, Num 11]) \<in> set (rows mm_ex) \<and>
   cell_at (columns mm_ex) [Str ''Ohio State'', Num 2019, Str ''No'', Str ''March Madness'',
        Num 110, Num 95, Num 52, Num 17, Num 66, Num 4, Num 5, Num 11] ''Post-Season Tournament''
     = Some (Str ''March Madness'') \<and>
   cell_at (columns mm_ex_l62) [Num 2019, Str ''Ohio State'', Num 110, Num 95, Num 52, Num 17,
        Num 66, Num 4, Num 5, Num 1] ''March Madness?'' = Some (Num 1)"
proof -
  have r: "(3, [Num 2019, Str ''Ohio State'', Num 110, Num 95, Num 52, Num 17, Num 66, Num 4, Num 5,
        Num 1]) \<in> set (rows mm_ex_l62)"
    by (simp add: mm_ex_l62_def mm_ex_l41_def)
  have raw: "(3, [Str ''Ohio State'', Num 2019, Str ''No'', Str ''March Madness'',
        Num 110, Num 95, Num 52, Num 17, Num 66, Num 4, Num 5, Num 11]) \<in> set (rows mm_ex)"
    by (simp add: mm_ex_def)
  have p: "cell_at (columns mm_ex) [Str ''Ohio State'', Num 2019, Str ''No'', Str ''March Madness'',
        Num 110, Num 95, Num 52, Num 17, Num 66, Num 4, Num 5, Num 11] ''Post-Season Tournament''
     = Some (Str ''March Madness'')"
    by (simp add: mm_ex_def cell_at_def)
  have "cell_at (columns mm_ex_l62) [Num 2019, Str ''Ohio State'', Num 110, Num 95, Num 52, Num 17,
        Num 66, Num 4, Num 5, Num 1] ''March Madness?'' = Some (Num 1)"
    using march_madness_label [OF mm_sub_mm_ex distinct_mm_ex r, THEN conjunct2, THEN conjunct1,
        rule_format, OF raw]
    by (simp add: p)
  with mm_sub_mm_ex distinct_mm_ex r raw p show ?thesis by (intro conjI)
qed

text \<open>
  C2. In the cleaned table, the table of line 62 that the heatmap, the histogram and the
  scatter plot read, every row has a numeric \<open>Season\<close> strictly greater than 2006, and a
  raw row whose \<open>Season\<close> is a number not above 2006 (2005, say) has no row there.
\<close>

theorem season_after_2006:
  assumes "mm_sub mm = Inr t" and "distinct (map fst (rows mm))"
  shows "((i, r) \<in> set (rows t) \<longrightarrow>
            (\<exists>v. cell_at (columns t) r ''Season'' = Some (Num v) \<and> 2006 < v)) \<and>
         ((j, raw) \<in> set (rows mm) \<and> cell_at (columns mm) raw ''Season'' = Some (Num y) \<and>
            y \<le> 2006 \<longrightarrow> j \<notin> fst ` set (rows t))"
proof -
  note a = mm_sub_Inr [OF assms(1)]
  have A: "\<exists>v. cell_at (columns t) r ''Season'' = Some (Num v) \<and> 2006 < v"
    if "(i, r) \<in> set (rows t)"
  proof -
    from mm_sub_row [OF assms(1) that] obtain raw0 where raw0:
      "in_season (columns mm) raw0" "r = row_l41 (columns mm) raw0"
      by blast
    from raw0(1) obtain v where "cell_at (columns mm) raw0 ''Season'' = Some (Num v)" "2006 < v"
      by (auto simp: in_season_def is_gt_def split: option.splits cell.splits)
    then show ?thesis using a raw0(2) row_l41_cells(1) [of "columns mm" raw0] by simp
  qed
  have B: "j \<notin> fst ` set (rows t)"
    if "(j, raw) \<in> set (rows mm)" "cell_at (columns mm) raw ''Season'' = Some (Num y)" "y \<le> 2006"
  proof
    assume "j \<in> fst ` set (rows t)"
    from mm_sub_labels [OF assms that(1) this] have "in_season (columns mm) raw" by simp
    then show False using that(2,3) by (simp add: in_season_def is_gt_def)
  qed
  show ?thesis
  proof (intro conjI impI)
    assume "(i, r) \<in> set (rows t)"
    then show "\<exists>v. cell_at (columns t) r ''Season'' = Some (Num v) \<and> 2006 < v" by (rule A)
  next
    assume h: "(j, raw) \<in> set (rows mm) \<and> cell_at (columns mm) raw ''Season'' = Some (Num y) \<and>
      y \<le> 2006"
    show "j \<notin> fst ` set (rows t)"
      by (rule B) (simp_all add: h)
  qed
qed

theorem season_after_2006_witness:
  "mm_sub mm_ex = Inr mm_ex_l62 \<and> distinct (map fst (rows mm_ex)) \<and>
   (4, [Num 2010, Str ''Dayton'', Num 107, Num 93, Num 49, Num 20, Num 67, Num 2, Num 3, Num 0])
     \<in> set (rows mm_ex_l62) \<and>
   cell_at (columns mm_ex_l62)
     [Num 2010, Str ''Dayton'', Num 107, Num 93, Num 49, Num 20, Num 67, Num 2, Num 3, Num 0]
     ''Season'' = Some (Num 2010) \<and>
   (0, [Str ''Duke'', Num 2005, Str ''No'', Str ''March Madness'',
        Num 118, Num 92, Num 55, Num 18, Num 68, NaN, NaN, Num 1]) \<in> set (rows mm_ex) \<and>
   cell_at (columns mm_ex) [Str ''Duke'', Num 2005, Str ''No'', Str ''March Madness'',
        Num 118, Num 92, Num 55, Num 18, Num 68, NaN, NaN, Num 1] ''Season'' = Some (Num 2005) \<and>
   0 \<notin> fst ` set (rows mm_ex_l62)"
proof -
  have r: "(4, [Num 2010, Str ''Dayton'', Num 107, Num 93, Num 49, Num 20, Num 67, Num 2, Num 3,
      Num 0]) \<in> set (rows mm_ex_l62)"
    by (simp add: mm_ex_l62_def mm_ex_l41_def)
  have raw: "(0, [Str ''Duke'', Num 2005, Str ''No'', Str ''March Madness'',
        Num 118, Num 92, Num 55, Num 18, Num 68, NaN, NaN, Num 1]) \<in> set (rows mm_ex)"
    by (simp add: mm_ex_def)
  have s: "cell_at (columns mm_ex) [Str ''Duke'', Num 2005, Str ''No'', Str ''March Madness'',
        Num 118, Num 92, Num 55, Num 18, Num 68, NaN, NaN, Num 1] ''Season'' = Some (Num 2005)"
    by (simp add: mm_ex_def cell_at_def)
  have le: "(2005::real) \<le> 2006" by simp
  note th = season_after_2006 [OF mm_sub_mm_ex distinct_mm_ex]
  from th [THEN conjunct1, rule_format, OF r]
  have 1: "cell_at (columns mm_ex_l62)
     [Num 2010, Str ''Dayton'', Num 107, Num 93, Num 49, Num 20, Num 67, Num 2, Num 3, Num 0]
     ''Season'' = Some (Num 2010)"
    by (simp add: mm_ex_l62_def mm_ex_l41_def cols_l41_def cell_at_def)
  from th [THEN conjunct2, rule_format, OF conjI [OF raw conjI [OF s le]]]
  have 2: "0 \<notin> fst ` set (rows mm_ex_l62)" .
  from mm_sub_mm_ex distinct_mm_ex r 1 raw s 2 show ?thesis by (intro conjI)
qed

text \<open>
  C3. Every row of the cleaned table has an \<open>eFGPct\<close> cell and an \<open>AdjDE\<close> cell, and
  neither is the number 0; a raw row whose \<open>eFGPct\<close> or
  \<open>Adjusted Defensive Efficiency\<close> is 0 has no row there, whatever its season.
\<close>

theorem no_zero_statistics:
  assumes "mm_sub mm = Inr t" and "distinct (map fst (rows mm))"
  shows "((i, r) \<in> set (rows t) \<longrightarrow>
            (\<exists>a b. cell_at (columns t) r ''eFGPct'' = Some a \<and> a \<noteq> Num 0 \<and>
                   cell_at (columns t) r ''AdjDE'' = Some b \<and> b \<noteq> Num 0)) \<and>
         ((j, raw) \<in> set (rows mm) \<and>
            (cell_at (columns mm) raw ''eFGPct'' = Some (Num 0) \<or>
             cell_at (columns mm) raw ''Adjusted Defensive Efficiency'' = Some (Num 0))
          \<longrightarrow> j \<notin> fst ` set (rows t))"
proof -
  note a = mm_sub_Inr [OF assms(1)]
  have A: "\<exists>a b. cell_at (columns t) r ''eFGPct'' = Some a \<and> a \<noteq> Num 0 \<and>
                   cell_at (columns t) r ''AdjDE'' = Some b \<and> b \<noteq> Num 0"
    if "(i, r) \<in> set (rows t)"
  proof -
    from mm_sub_row [OF assms(1) that] obtain raw0 where raw0:
      "kept (columns mm) raw0" "r = row_l41 (columns mm) raw0"
      by blast
    from a have sub: "set cols_l25 \<subseteq> set (columns mm)" by simp
    obtain x where x: "cell_at (columns mm) raw0 ''eFGPct'' = Some x"
      using row_l29_cells(3) [OF sub, of raw0] by metis
    obtain y where y: "cell_at (columns mm) raw0 ''Adjusted Defensive Efficiency'' = Some y"
      using row_l29_cells(2) [OF sub, of raw0] by metis
    have "x \<noteq> Num 0" "y \<noteq> Num 0" using raw0(1) x y by (auto simp: kept_def)
    then show ?thesis
      using a raw0(2) x y row_l41_cells(2,3) [OF sub, of raw0] by simp
  qed
  have B: "j \<notin> fst ` set (rows t)"
    if "(j, raw) \<in> set (rows mm)"
      "cell_at (columns mm) raw ''eFGPct'' = Some (Num 0) \<or>
       cell_at (columns mm) raw ''Adjusted Defensive Efficiency'' = Some (Num 0)"
  proof
    assume "j \<in> fst ` set (rows t)"
    from mm_sub_labels [OF assms that(1) this] have "kept (columns mm) raw" by simp
    then show False using that(2) by (auto simp: kept_def)
  qed
  show ?thesis
  proof (intro conjI impI)
    assume "(i, r) \<in> set (rows t)"
    then show "\<exists>a b. cell_at (columns t) r ''eFGPct'' = Some a \<and> a \<noteq> Num 0 \<and>
                   cell_at (columns t) r ''AdjDE'' = Some b \<and> b \<noteq> Num 0" by (rule A)
  next
    assume h: "(j, raw) \<in> set (rows mm) \<and>
            (cell_at (columns mm) raw ''eFGPct'' = Some (Num 0) \<or>
             cell_at (columns mm) raw ''Adjusted Defensive Efficiency'' = Some (Num 0))"
    show "j \<notin> fst ` set (rows t)"
      by (rule B) (simp_all add: h)
  qed
qed

theorem no_zero_statistics_witness:
  "mm_sub mm_ex = Inr mm_ex_l62 \<and> distinct (map fst (rows mm_ex)) \<and>
   (6, [Num 2015, Str ''Utah'', Num 112, Num 90, Num 53, Num 18, Num 63, NaN, Num 4, Num 0])
     \<in> set (rows mm_ex_l62) \<and>
   cell_at (columns mm_ex_l62)
     [Num 2015, Str ''Utah'', Num 112, Num 90, Num 53, Num 18, Num 63, NaN, Num 4, Num 0]
     ''eFGPct'' = Some (Num 53) \<and>
   cell_at (columns mm_ex_l62)
     [Num 2015, Str ''Utah'', Num 112, Num 90, Num 53, Num 18, Num 63, NaN, Num 4, Num 0]
     ''AdjDE'' = Some (Num 90) \<and>
   (1, [Str ''Yale'', Num 2021, Str ''No'', NaN,
        Num 0, Num 0, Num 0, Num 0, Num 0, Num 0, Num 0, NaN]) \<in> set (rows mm_ex) \<and>
   cell_at (columns mm_ex) [Str ''Yale'', Num 2021, Str ''No'', NaN,
        Num 0, Num 0, Num 0, Num 0, Num 0, Num 0, Num 0, NaN] ''eFGPct'' = Some (Num 0) \<and>
   cell_at (columns mm_ex) [Str ''Yale'', Num 2021, Str ''No'', NaN,
        Num 0, Num 0, Num 0, Num 0, Num 0, Num 0, Num 0, NaN] ''Season'' = Some (Num 2021) \<and>
   1 \<notin> fst ` set (rows mm_ex_l62)"
proof -
  have r: "(6, [Num 2015, Str ''Utah'', Num 112, Num 90, Num 53, Num 18, Num 63, NaN, Num 4,
      Num 0]) \<in> set (rows mm_ex_l62)"
    by (simp add: mm_ex_l62_def mm_ex_l41_def)
  have raw: "(1, [Str ''Yale'', Num 2021, Str ''No'', NaN,
        Num 0, Num 0, Num 0, Num 0, Num 0, Num 0, Num 0, NaN]) \<in> set (rows mm_ex)"
    by (simp add: mm_ex_def)
  have z: "cell_at (columns mm_ex) [Str ''Yale'', Num 2021, Str ''No'', NaN,
        Num 0, Num 0, Num 0, Num 0, Num 0, Num 0, Num 0, NaN] ''eFGPct'' = Some (Num 0)"
    by (simp add: mm_ex_def cell_at_def)
  have s: "cell_at (columns mm_ex) [Str ''Yale'', Num 2021, Str ''No'', NaN,
        Num 0, Num 0, Num 0, Num 0, Num 0, Num 0, Num 0, NaN] ''Season'' = Some (Num 2021)"
    by (simp add: mm_ex_def cell_at_def)
  note th = no_zero_statistics [OF mm_sub_mm_ex distinct_mm_ex]
  from th [THEN conjunct1, rule_format, OF r]
  have 1: "cell_at (columns mm_ex_l62)
     [Num 2015, Str ''Utah'', Num 112, Num 90, Num 53, Num 18, Num 63, NaN, Num 4, Num 0]
     ''eFGPct'' = Some (Num 53)"
    and 2: "cell_at (columns mm_ex_l62)
     [Num 2015, Str ''Utah'', Num 112, Num 90, Num 53, Num 18, Num 63, NaN, Num 4, Num 0]
     ''AdjDE'' = Some (Num 90)"
    by (simp_all add: mm_ex_l62_def mm_ex_l41_def cols_l41_def cell_at_def)
  from th [THEN conjunct2, rule_format, OF conjI [OF raw disjI1 [OF z]]]
  have 3: "1 \<notin> fst ` set (rows mm_ex_l62)" .
  from mm_sub_mm_ex distinct_mm_ex r 1 2 raw z s 3 show ?thesis by (intro conjI)
qed

lemma mm_sub_l25_mm_ex: "mm_sub_l25 mm_ex = Inr mm_ex_l25"
  by (simp add: chain_defs mm_ex_def mm_ex_l25_def)

text \<open>
  C4. Every row of the cleaned table comes from a raw row whose \<open>Tournament Winner?\<close>
  cell is the string \<open>No\<close>: no row of a team marked \<open>Yes\<close>, a conference tournament
  winner that qualifies automatically, is retained.
\<close>

theorem no_conference_winners:
  assumes "mm_sub mm = Inr t" and "distinct (map fst (rows mm))" and "(i, r) \<in> set (rows t)"
  shows "(\<exists>raw. (i, raw) \<in> set (rows mm)) \<and>
         (\<forall>raw. (i, raw) \<in> set (rows mm) \<longrightarrow>
            cell_at (columns mm) raw ''Tournament Winner?'' = Some (Str ''No'') \<and>
            cell_at (columns mm) raw ''Tournament Winner?'' \<noteq> Some (Str ''Yes''))"
proof -
  from mm_sub_row [OF assms(1,3)] obtain raw0 where raw0: "(i, raw0) \<in> set (rows mm)"
    "kept (columns mm) raw0"
    by blast
  have u: "raw = raw0" if "(i, raw) \<in> set (rows mm)" for raw
    using assms(2) that raw0(1) by (rule eq_key_imp_eq_value)
  have w: "cell_at (columns mm) raw0 ''Tournament Winner?'' = Some (Str ''No'')"
    using raw0(2) by (simp add: kept_def)
  have 1: "\<exists>raw. (i, raw) \<in> set (rows mm)" using raw0(1) by (rule exI)
  have 2: "\<forall>raw. (i, raw) \<in> set (rows mm) \<longrightarrow>
            cell_at (columns mm) raw ''Tournament Winner?'' = Some (Str ''No'') \<and>
            cell_at (columns mm) raw ''Tournament Winner?'' \<noteq> Some (Str ''Yes'')"
  proof (intro allI impI)
    fix raw assume "(i, raw) \<in> set (rows mm)"
    then have "raw = raw0" by (rule u)
    then show "cell_at (columns mm) raw ''Tournament Winner?'' = Some (Str ''No'') \<and>
            cell_at (columns mm) raw ''Tournament Winner?'' \<noteq> Some (Str ''Yes'')"
      using w by simp
  qed
  from 1 2 show ?thesis by (intro conjI)
qed

theorem no_conference_winners_witness:
  "mm_sub mm_ex = Inr mm_ex_l62 \<and> distinct (map fst (rows mm_ex)) \<and>
   (4, [Num 2010, Str ''Dayton'', Num 107, Num 93, Num 49, Num 20, Num 67, Num 2, Num 3, Num 0])
     \<in> set (rows mm_ex_l62) \<and>
   (4, [Str ''Dayton'', Num 2010, Str ''No'', Str ''NIT'',
        Num 107, Num 93, Num 49, Num 20, Num 67, Num 2, Num 3, NaN]) \<in> set (rows mm_ex) \<and>
   cell_at (columns mm_ex) [Str ''Dayton'', Num 2010, Str ''No'', Str ''NIT'',
        Num 107, Num 93, Num 49, Num 20, Num 67, Num 2, Num 3, NaN] ''Tournament Winner?''
     = Some (Str ''No'')"
proof -
  have r: "(4, [Num 2010, Str ''Dayton'', Num 107, Num 93, Num 49, Num 20, Num 67, Num 2, Num 3,
      Num 0]) \<in> set (rows mm_ex_l62)"
    by (simp add: mm_ex_l62_def mm_ex_l41_def)
  have raw: "(4, [Str ''Dayton'', Num 2010, Str ''No'', Str ''NIT'',
        Num 107, Num 93, Num 49, Num 20, Num 67, Num 2, Num 3, NaN]) \<in> set (rows mm_ex)"
    by (simp add: mm_ex_def)
  note th = no_conference_winners [OF mm_sub_mm_ex distinct_mm_ex r, THEN conjunct2, rule_format,
      OF raw, THEN conjunct1]
  from mm_sub_mm_ex distinct_mm_ex r raw th show ?thesis by (intro conjI)
qed

text \<open>
  C10. The filter of line 25 keeps exactly the raw rows whose \<open>Tournament Winner?\<close> cell
  is the string \<open>No\<close>, in their order. A raw row with any other cell there (\<open>Yes\<close>,
  another string, a number, a missing value) has no row in the table of line 25 and none in
  the cleaned table.
\<close>

theorem winner_filter_exact:
  assumes "mm_sub_l25 mm = Inr t1"
  shows "map fst (rows t1) =
           map fst (filter (\<lambda>r. cell_at (columns mm) (snd r) ''Tournament Winner?'' =
                                   Some (Str ''No'')) (rows mm)) \<and>
         (distinct (map fst (rows mm)) \<and> (j, raw) \<in> set (rows mm) \<and>
          cell_at (columns mm) raw ''Tournament Winner?'' \<noteq> Some (Str ''No'')
          \<longrightarrow> j \<notin> fst ` set (rows t1) \<and> (\<forall>t. mm_sub mm = Inr t \<longrightarrow> j \<notin> fst ` set (rows t)))"
proof -
  note a = mm_sub_l25_Inr [OF assms]
  have 1: "map fst (rows t1) =
           map fst (filter (\<lambda>r. cell_at (columns mm) (snd r) ''Tournament Winner?'' =
                                   Some (Str ''No'')) (rows mm))"
    using a by (simp add: comp_def)
  have 2: "j \<notin> fst ` set (rows t1) \<and> (\<forall>t. mm_sub mm = Inr t \<longrightarrow> j \<notin> fst ` set (rows t))"
    if d: "distinct (map fst (rows mm))" and m: "(j, raw) \<in> set (rows mm)"
      and n: "cell_at (columns mm) raw ''Tournament Winner?'' \<noteq> Some (Str ''No'')"
  proof (intro conjI allI impI)
    show "j \<notin> fst ` set (rows t1)"
    proof
      assume "j \<in> fst ` set (rows t1)"
      then have "j \<in> set (map fst (rows t1))" by simp
      then obtain x where x: "x \<in> set (rows mm)" "fst x = j"
        "cell_at (columns mm) (snd x) ''Tournament Winner?'' = Some (Str ''No'')"
        unfolding 1 by auto
      then have "(j, snd x) \<in> set (rows mm)" by (metis prod.collapse)
      with d m have "snd x = raw" by (metis eq_key_imp_eq_value)
      with x(3) n show False by simp
    qed
  next
    fix t assume t: "mm_sub mm = Inr t"
    show "j \<notin> fst ` set (rows t)"
    proof
      assume "j \<in> fst ` set (rows t)"
      from mm_sub_labels [OF t d m this] have "kept (columns mm) raw" by simp
      with n show False by (simp add: kept_def)
    qed
  qed
  show ?thesis
  proof (intro conjI impI)
    show "map fst (rows t1) =
           map fst (filter (\<lambda>r. cell_at (columns mm) (snd r) ''Tournament Winner?'' =
                                   Some (Str ''No'')) (rows mm))" by (rule 1)
  next
    assume h: "distinct (map fst (rows mm)) \<and> (j, raw) \<in> set (rows mm) \<and>
          cell_at (columns mm) raw ''Tournament Winner?'' \<noteq> Some (Str ''No'')"
    show "j \<notin> fst ` set (rows t1)" using 2 h by blast
  next
    assume h: "distinct (map fst (rows mm)) \<and> (j, raw) \<in> set (rows mm) \<and>
          cell_at (columns mm) raw ''Tournament Winner?'' \<noteq> Some (Str ''No'')"
    show "\<forall>t. mm_sub mm = Inr t \<longrightarrow> j \<notin> fst ` set (rows t)" using 2 h by blast
  qed
qed

theorem winner_filter_exact_witness:
  "mm_sub_l25 mm_ex = Inr mm_ex_l25 \<and> map fst (rows mm_ex_l25) = [0, 1, 3, 4, 6] \<and>
   distinct (map fst (rows mm_ex)) \<and>
   (5, [Str ''Drake'', Num 2012, NaN, NaN,
        Num 103, Num 101, Num 50, Num 19, Num 65, Num 1, Num 1, NaN]) \<in> set (rows mm_ex) \<and>
   cell_at (columns mm_ex) [Str ''Drake'', Num 2012, NaN, NaN,
        Num 103, Num 101, Num 50, Num 19, Num 65, Num 1, Num 1, NaN] ''Tournament Winner?''
     = Some NaN \<and>
   5 \<notin> fst ` set (rows mm_ex_l25) \<and> mm_sub mm_ex = Inr mm_ex_l62 \<and>
   5 \<notin> fst ` set (rows mm_ex_l62)"
proof -
  have raw: "(5, [Str ''Drake'', Num 2012, NaN, NaN,
        Num 103, Num 101, Num 50, Num 19, Num 65, Num 1, Num 1, NaN]) \<in> set (rows mm_ex)"
    by (simp add: mm_ex_def)
  have w: "cell_at (columns mm_ex) [Str ''Drake'', Num 2012, NaN, NaN,
        Num 103, Num 101, Num 50, Num 19, Num 65, Num 1, Num 1, NaN] ''Tournament Winner?''
     = Some NaN"
    by (simp add: mm_ex_def cell_at_def)
  then have n: "cell_at (columns mm_ex) [Str ''Drake'', Num 2012, NaN, NaN,
        Num 103, Num 101, Num 50, Num 19, Num 65, Num 1, Num 1, NaN] ''Tournament Winner?''
     \<noteq> Some (Str ''No'')"
    by simp
  note th = winner_filter_exact [OF mm_sub_l25_mm_ex]
  have 1: "map fst (rows mm_ex_l25) = [0, 1, 3, 4, 6]"
    using th [THEN conjunct1] by (simp add: mm_ex_l25_def)
  note c = th [THEN conjunct2, rule_format, OF conjI [OF distinct_mm_ex conjI [OF raw n]]]
  have 2: "5 \<notin> fst ` set (rows mm_ex_l25)" using c by (rule conjunct1)
  have 3: "5 \<notin> fst ` set (rows mm_ex_l62)"
    using c [THEN conjunct2, rule_format, OF mm_sub_mm_ex] .
  from mm_sub_l25_mm_ex 1 distinct_mm_ex raw w 2 mm_sub_mm_ex 3 show ?thesis by (intro conjI)
qed

lemma Inl_chain:
  assumes "mm_sub_l25 mm = Inl e"
  shows "mm_sub_l41 mm = Inl e" and "mm_sub mm = Inl e" and "nan_array_l47 mm = Inl e"
    and "fig_hist conv mm c = Inl e"
  using assms
  by (simp_all add: mm_sub_def mm_sub_l41_def mm_sub_l34_def mm_sub_l32_def mm_sub_l29_def
      nan_array_l47_def fig_hist_def)

text \<open>
  The claim C5 as stated, that a raw table without a required column ends in a message
  shown to the user and not in an unhandled exception, fails on a frame without the
  \<open>Tournament Winner?\<close> column: line 25 raises \<open>KeyError\<close> and nothing in the script
  catches it.
\<close>

theorem missing_column_uncaught_counterexample:
  "''Tournament Winner?'' \<in> set cols_l25 \<and> ''Tournament Winner?'' \<notin> set (columns mm_no_winner) \<and>
   mm_sub mm_no_winner = Inl (KeyError [''Tournament Winner?''])"
  by (simp add: chain_defs mm_no_winner_def)

text \<open>
  C5, amended. When a required column is absent from the loaded frame, line 25 raises
  \<open>KeyError\<close> naming one or more absent required columns, and the exception leaves the script
  uncaught: no table is made, and neither the missing-value array, the cleaned table nor
  the histogram is computed.
\<close>

theorem missing_column_KeyError:
  assumes "\<not> set cols_l25 \<subseteq> set (columns mm)"
  shows "\<exists>ks. ks \<noteq> [] \<and> set ks \<subseteq> set cols_l25 - set (columns mm) \<and>
           mm_sub_l25 mm = Inl (KeyError ks) \<and> nan_array_l47 mm = Inl (KeyError ks) \<and>
           mm_sub mm = Inl (KeyError ks) \<and> fig_hist conv mm plot_col = Inl (KeyError ks)"
proof -
  have "\<exists>ks. ks \<noteq> [] \<and> set ks \<subseteq> set cols_l25 - set (columns mm) \<and>
           mm_sub_l25 mm = Inl (KeyError ks)"
  proof (cases "col_pos (columns mm) ''Tournament Winner?''")
    case None
    then have "''Tournament Winner?'' \<notin> set (columns mm)" by (simp add: col_pos_None)
    moreover have "''Tournament Winner?'' \<in> set cols_l25" by (simp add: cols_l25_def)
    moreover have "mm_sub_l25 mm = Inl (KeyError [''Tournament Winner?''])"
      using None by (simp add: mm_sub_l25_def getitem_def)
    ultimately show ?thesis by (intro exI [of _ "[''Tournament Winner?'']"]) simp
  next
    case (Some k)
    let ?ks = "filter (\<lambda>c. c \<notin> set (columns mm)) cols_l25"
    have ne: "?ks \<noteq> []" using assms by (auto simp: filter_empty_conv)
    then have "mm_sub_l25 mm = Inl (KeyError ?ks)"
      using Some by (simp add: mm_sub_l25_def getitem_def loc_def)
    moreover have "set ?ks \<subseteq> set cols_l25 - set (columns mm)" by auto
    ultimately show ?thesis using ne by blast
  qed
  then obtain ks where ks: "ks \<noteq> []" "set ks \<subseteq> set cols_l25 - set (columns mm)"
    "mm_sub_l25 mm = Inl (KeyError ks)"
    by blast
  from Inl_chain [OF ks(3)] ks show ?thesis by blast
qed

theorem missing_column_KeyError_witness:
  "\<not> set cols_l25 \<subseteq> set (columns mm_no_pg) \<and>
   mm_sub_l25 mm_no_pg = Inl (KeyError [''PGOR'', ''PGDR'']) \<and>
   nan_array_l47 mm_no_pg = Inl (KeyError [''PGOR'', ''PGDR'']) \<and>
   mm_sub mm_no_pg = Inl (KeyError [''PGOR'', ''PGDR'']) \<and>
   fig_hist no_conv mm_no_pg ''AdjTempo'' = Inl (KeyError [''PGOR'', ''PGDR''])"
proof -
  have h: "\<not> set cols_l25 \<subseteq> set (columns mm_no_pg)"
    by (simp add: cols_l25_def mm_no_pg_def)
  have e: "mm_sub_l25 mm_no_pg = Inl (KeyError [''PGOR'', ''PGDR''])"
    by (simp add: chain_defs mm_no_pg_def)
  from missing_column_KeyError [OF h, of no_conv "''AdjTempo''"] obtain ks where
    "mm_sub_l25 mm_no_pg = Inl (KeyError ks)" "nan_array_l47 mm_no_pg = Inl (KeyError ks)"
    "mm_sub mm_no_pg = Inl (KeyError ks)" "fig_hist no_conv mm_no_pg ''AdjTempo'' = Inl (KeyError ks)"
    by blast
  with e h show ?thesis by simp
qed

lemma length_row_l41: "set cols_l25 \<subseteq> set cols \<Longrightarrow> length (row_l41 cols r) = 10"
  by (simp add: row_l41_def length_row_l29)

lemma is_gt_season:
  "is_gt (r ! 0) 2006 = (case cell_at cols_l41 r ''Season'' of Some (Num v) \<Rightarrow> 2006 < v | _ \<Rightarrow> False)"
  by (simp add: cell_at_def cols_l41_def is_gt_def)

text \<open>
  The claim C6 as stated, that the missing-value map is computed over the table that feeds
  the other views (the one with \<open>Season > 2006\<close>), fails on a frame whose only row is of
  season 2005: the array of line 47 has that row, the table of line 62 has none.
\<close>

theorem nan_array_final_counterexample:
  "nan_array_l47 mm_2005 = Inr [[0, 0, 0, 0, 0, 0, 0, 1, 1, 0]] \<and>
   map_sum id nan_array (mm_sub mm_2005) = Inr []"
  by (simp add: nan_array_l47_def chain_defs mm_2005_def nan_array_def nan_mask_def isna_def)

text \<open>
  C6, amended. The missing-value map is a 0/1 grid (1 for a missing cell) over all ten
  columns and all rows of the table of line 41, the table after the label is derived and
  before the season filter of line 62; lines 46 to 59 come before line 62. The table that
  feeds the other views has the same columns and exactly those of its rows whose
  \<open>Season\<close> is a number above 2006.
\<close>

theorem nan_array_over_line41_table:
  assumes "mm_sub_l41 mm = Inr t"
  shows "nan_array_l47 mm =
           Inr (map (\<lambda>r. map (\<lambda>c. if c = NaN then 1 else 0) (snd r)) (rows t)) \<and>
         columns t = cols_l41 \<and> list_all (\<lambda>r. length (snd r) = 10) (rows t) \<and>
         (\<forall>t'. mm_sub mm = Inr t' \<longrightarrow>
            columns t' = columns t \<and>
            rows t' = filter (\<lambda>r. case cell_at (columns t) (snd r) ''Season'' of
                                     Some (Num v) \<Rightarrow> 2006 < v | _ \<Rightarrow> False) (rows t))"
proof -
  note a = mm_sub_l41_Inr [OF assms]
  have 1: "nan_array_l47 mm =
           Inr (map (\<lambda>r. map (\<lambda>c. if c = NaN then 1 else 0) (snd r)) (rows t))"
    using assms by (simp add: nan_array_l47_def nan_array_def nan_mask_def isna_def comp_def)
  have 2: "columns t = cols_l41" using a by simp
  have 3: "list_all (\<lambda>r. length (snd r) = 10) (rows t)"
    using a length_row_l41 [of "columns mm"] by (simp add: list_all_iff)
  have 4: "\<forall>t'. mm_sub mm = Inr t' \<longrightarrow>
            columns t' = columns t \<and>
            rows t' = filter (\<lambda>r. case cell_at (columns t) (snd r) ''Season'' of
                                     Some (Num v) \<Rightarrow> 2006 < v | _ \<Rightarrow> False) (rows t)"
  proof (intro allI impI)
    fix t' assume "mm_sub mm = Inr t'"
    then have s: "season_filter t = Inr t'" using assms by (simp add: mm_sub_def)
    from season_filter_Inr [OF s 2] show "columns t' = columns t \<and>
            rows t' = filter (\<lambda>r. case cell_at (columns t) (snd r) ''Season'' of
                                     Some (Num v) \<Rightarrow> 2006 < v | _ \<Rightarrow> False) (rows t)"
      using 2 by (simp add: is_gt_season)
  qed
  from 1 2 3 4 show ?thesis by (intro conjI)
qed

theorem nan_array_over_line41_table_witness:
  "mm_sub_l41 mm_ex = Inr mm_ex_l41 \<and>
   nan_array_l47 mm_ex =
     Inr [[0, 0, 0, 0, 0, 0, 0, 1, 1, 0], [0, 0, 0, 0, 0, 0, 0, 0, 0, 0],
          [0, 0, 0, 0, 0, 0, 0, 0, 0, 0], [0, 0, 0, 0, 0, 0, 0, 1, 0, 0]] \<and>
   mm_sub mm_ex = Inr mm_ex_l62 \<and> columns mm_ex_l62 = columns mm_ex_l41 \<and>
   rows mm_ex_l62 = tl (rows mm_ex_l41)"
proof -
  note th = nan_array_over_line41_table [OF mm_sub_l41_mm_ex]
  have 1: "nan_array_l47 mm_ex =
     Inr [[0, 0, 0, 0, 0, 0, 0, 1, 1, 0], [0, 0, 0, 0, 0, 0, 0, 0, 0, 0],
          [0, 0, 0, 0, 0, 0, 0, 0, 0, 0], [0, 0, 0, 0, 0, 0, 0, 1, 0, 0]]"
    using th [THEN conjunct1] by (simp add: mm_ex_l41_def)
  note c = th [THEN conjunct2, THEN conjunct2, THEN conjunct2, rule_format, OF mm_sub_mm_ex]
  have 2: "columns mm_ex_l62 = columns mm_ex_l41" using c by (rule conjunct1)
  have 3: "rows mm_ex_l62 = tl (rows mm_ex_l41)"
    using c [THEN conjunct2] by (simp add: mm_ex_l62_def)
  from mm_sub_l41_mm_ex 1 mm_sub_mm_ex 2 3 show ?thesis by (intro conjI)
qed



lemma length_linspace: "length (linspace a b n) = n"
  by (simp add: linspace_def)

lemma num_mm_rows: "num_mm t = int (length (rows t))"
  by (simp add: num_mm_def nan_array_def nan_mask_def)

lemma length_xticks: "length (xticks t) = min 10 (length (rows t))"
  by (simp add: xticks_def length_linspace num_mm_rows)

lemma linspace_nth:
  assumes "2 \<le> k" and "i < k"
  shows "linspace 0 b k ! i = real i * (b / real (k - 1))"
proof (cases "i = k - 1")
  case True
  then show ?thesis using assms by (simp add: linspace_def)
next
  case False
  then show ?thesis using assms by (simp add: linspace_def)
qed

lemma xticks_nth:
  assumes "2 \<le> min 10 (length (rows t))" and "i < min 10 (length (rows t))"
  shows "xticks t ! i =
           \<lfloor>real i * (real (length (rows t) - 1) / real (min 10 (length (rows t)) - 1))\<rfloor>"
proof -
  let ?n = "length (rows t)" and ?k = "min 10 (length (rows t))"
  have b: "real_of_int (num_mm t - 1) = real (?n - 1)"
    using assms(1) by (simp add: num_mm_rows of_nat_diff)
  have k: "nat (min 10 (num_mm t)) = ?k" by (simp add: num_mm_rows)
  have "xticks t = map trunc (linspace 0 (real (?n - 1)) ?k)"
    unfolding xticks_def b k by (rule refl)
  then have "xticks t ! i = trunc (linspace 0 (real (?n - 1)) ?k ! i)"
    using assms(2) by (simp add: length_linspace)
  also have "\<dots> = trunc (real i * (real (?n - 1) / real (?k - 1)))"
    using linspace_nth [OF assms] by simp
  also have "\<dots> = \<lfloor>real i * (real (?n - 1) / real (?k - 1))\<rfloor>"
    by (simp add: trunc_def)
  finally show ?thesis .
qed

lemma floor_step:
  fixes q :: real
  assumes "1 \<le> q" and "i < j"
  shows "\<lfloor>real i * q\<rfloor> < \<lfloor>real j * q\<rfloor>"
proof -
  have "real i + 1 \<le> real j" using assms(2) by simp
  then have "(real i + 1) * q \<le> real j * q" using assms(1) by (simp add: mult_right_mono)
  then have "real i * q + 1 \<le> real j * q" using assms(1) by (simp add: algebra_simps)
  then have "\<lfloor>real i * q + 1\<rfloor> \<le> \<lfloor>real j * q\<rfloor>" by (rule floor_mono)
  then show ?thesis by simp
qed

lemma distinct_xticks: "distinct (xticks t)"
proof -
  let ?n = "length (rows t)" and ?k = "min 10 (length (rows t))"
  consider "?k = 0" | "?k = 1" | "2 \<le> ?k" by linarith
  then show ?thesis
  proof cases
    case 1
    then have "length (xticks t) = 0" by (simp add: length_xticks)
    then show ?thesis by simp
  next
    case 2
    then have "length (xticks t) = 1" by (simp add: length_xticks)
    then show ?thesis by (cases "xticks t") auto
  next
    case 3
    have q: "1 \<le> real (?n - 1) / real (?k - 1)" using 3 by (simp add: le_divide_eq)
    have "xticks t ! i < xticks t ! j" if "i < j" "j < ?k" for i j
      using that 3 floor_step [OF q that(1)] by (simp add: xticks_nth)
    then have "xticks t ! i \<noteq> xticks t ! j" if "i < ?k" "j < ?k" "i \<noteq> j" for i j
      using that by (metis less_irrefl linorder_neqE_nat)
    then show ?thesis by (simp add: distinct_conv_nth length_xticks)
  qed
qed

text \<open>
  C8. Whatever the number of rows of the table that is mapped, line 57 gives the x-axis
  exactly \<open>min(10, row count)\<close> tick positions, so at most ten, and (with the samples of
  \<open>linspace\<close> taken in exact arithmetic) no two of them coincide.
\<close>

theorem xticks_count:
  "length (xticks t) = min 10 (length (rows t)) \<and> length (xticks t) \<le> 10 \<and> distinct (xticks t)"
  using length_xticks [of t] distinct_xticks [of t] by simp

section \<open>Lemmas about the correlation matrix\<close>










lemma float_rows_Nil: "float_rows conv [] = Inr []"
  by simp



























end
